theory Spec2Isabelle
  imports Main "HOL-Library.Word"
begin

section \<open>The power HAL of power-libperfmgr/Power.cpp\<close>

text \<open>
  The theory embeds the hint handlers of \<^verbatim>\<open>Power.cpp\<close>: \<^verbatim>\<open>Power::powerHint\<close>,
  \<^verbatim>\<open>Power::powerHintAsync\<close>, \<^verbatim>\<open>Power::powerHintAsync_1_2\<close>,
  \<^verbatim>\<open>Power::powerHintAsync_1_3\<close> and \<^verbatim>\<open>Power::isSupportedGovernor\<close>.
  A handler takes the object's fields and returns them updated, together with the calls it
  made on its collaborators, in program order.
\<close>

subsection \<open>Data\<close>

text \<open>
  The payload \<^verbatim>\<open>data\<close> is an \<^verbatim>\<open>int32_t\<close>; \<^verbatim>\<open>size_t\<close> is the 64-bit unsigned type
  of the target (arm64).
\<close>

type_synonym int32_t = "32 word"
type_synonym size_t = "64 word"

text \<open>
  The hint enumerations are declared by the HIDL interfaces
  \<^verbatim>\<open>android.hardware.power@1.0\<close>, \<^verbatim>\<open>@1.2\<close> and \<^verbatim>\<open>@1.3\<close>, each extending the one
  before. The enumerators are the ones the handlers name in their \<^verbatim>\<open>case\<close> labels;
  \<open>OTHER_1_0\<close> stands for every remaining enumerator of version 1.0, which the
  \<^verbatim>\<open>switch\<close> of \<^verbatim>\<open>powerHint\<close> sends to \<^verbatim>\<open>default\<close>. The constructors \<open>V1_0\<close> and
  \<open>V1_2\<close> are the inherited enumerators, so that the \<^verbatim>\<open>static_cast\<close> to the lower
  version in a \<^verbatim>\<open>default\<close> branch is the projection.
\<close>

datatype PowerHint_1_0 =
    INTERACTION
  | SUSTAINED_PERFORMANCE
  | VR_MODE
  | LAUNCH
  | LOW_POWER
  | OTHER_1_0

datatype PowerHint_1_2 =
    V1_0 PowerHint_1_0
  | AUDIO_LOW_LATENCY
  | AUDIO_STREAMING
  | CAMERA_LAUNCH
  | CAMERA_STREAMING
  | CAMERA_SHOT

datatype PowerHint_1_3 =
    V1_2 PowerHint_1_2
  | EXPENSIVE_RENDERING

text \<open>
  What a handler does to the outside: the calls on \<^verbatim>\<open>mHintManager\<close> (\<open>DoHint\<close>,
  \<open>DoHintFor\<close> for the overload with a duration, given in milliseconds, \<open>EndHint\<close>),
  on \<^verbatim>\<open>mInteractionHandler\<close> (\<open>Acquire\<close>), on the display helper
  (\<open>set_display_lpm\<close>), and the messages logged at error level (\<open>ALOGE\<close> with its
  format string and argument, \<open>LOG_ERROR\<close>). Tracing and the logs below error level
  (\<^verbatim>\<open>ATRACE_INT\<close>, \<^verbatim>\<open>ALOGD_IF\<close>, \<^verbatim>\<open>ALOGV\<close>) are left out.
\<close>

datatype event =
    DoHint string
  | DoHintFor string int
  | EndHint string
  | Acquire int32_t
  | set_display_lpm bool
  | ALOGE string int32_t
  | LOG_ERROR string

text \<open>The fields of \<^verbatim>\<open>Power\<close> that the handlers read and write.\<close>

record Power =
  mVRModeOn :: bool
  mSustainedPerfModeOn :: bool
  mCameraStreamingModeOn :: bool
  mReady :: bool

text \<open>The constructor's member initialisers (before the initialisation thread has run).\<close>

definition Power_ctor :: Power where
  "Power_ctor =
     \<lparr>mVRModeOn = False, mSustainedPerfModeOn = False,
      mCameraStreamingModeOn = False, mReady = False\<rparr>"

subsection \<open>Constants\<close>

definition kTpuBoostStop :: size_t where
  "kTpuBoostStop = 1000"

definition kTpuBoostShort :: size_t where
  "kTpuBoostShort = 1001"

definition kTpuBoostLong :: size_t where
  "kTpuBoostLong = 1002"

definition kTpuBoostDurationShortMs :: size_t where
  "kTpuBoostDurationShortMs = 200"

definition kTpuBoostDurationLongMs :: size_t where
  "kTpuBoostDurationLongMs = 2000"

text \<open>
  \<^verbatim>\<open>std::chrono\<close> durations, as the number of milliseconds that \<^verbatim>\<open>DoHint\<close> receives:
  \<^verbatim>\<open>std::chrono::seconds(n)\<close> converts to \<open>1000 * n\<close> milliseconds.
\<close>

definition milliseconds :: "int \<Rightarrow> int" where
  "milliseconds n = n"

definition seconds :: "int \<Rightarrow> int" where
  "seconds n = 1000 * n"

text \<open>
  In \<^verbatim>\<open>data == kTpuBoostShort\<close> the \<^verbatim>\<open>int32_t\<close> is converted to \<^verbatim>\<open>size_t\<close>
  (sign extension) before the comparison.
\<close>

definition eq_size_t :: "int32_t \<Rightarrow> size_t \<Rightarrow> bool" where
  "eq_size_t data k = ((scast data :: size_t) = k)"

subsection \<open>The governor check\<close>

text \<open>
  \<^verbatim>\<open>Power::isSupportedGovernor\<close>. The argument is the value of \<^verbatim>\<open>buf\<close> at the
  comparison, that is, what was read from the \<^verbatim>\<open>scaling_governor\<close> file and trimmed
  (empty when the read failed). The file is read again at each protocol level; its
  contents are taken as fixed while one request is processed.
\<close>

definition isSupportedGovernor :: "string \<Rightarrow> bool \<times> event list" where
  "isSupportedGovernor buf =
     (if buf = ''schedutil'' \<or> buf = ''sched'' then (True, [])
      else (False, [LOG_ERROR ''Governor not supported by powerHAL, skipping'']))"

subsection \<open>The handlers\<close>

text \<open>\<^verbatim>\<open>Power::powerHint\<close>, after the governor and readiness check.\<close>

fun powerHint_switch :: "PowerHint_1_0 \<Rightarrow> int32_t \<Rightarrow> Power \<Rightarrow> Power \<times> event list" where
  "powerHint_switch INTERACTION data s =
     (if mVRModeOn s \<or> mSustainedPerfModeOn s then (s, [])
      else (s, [Acquire data]))"
| "powerHint_switch SUSTAINED_PERFORMANCE data s =
     (if data \<noteq> 0 \<and> \<not> mSustainedPerfModeOn s then
        (if \<not> mVRModeOn s then
           (s\<lparr>mSustainedPerfModeOn := True\<rparr>, [DoHint ''SUSTAINED_PERFORMANCE''])
         else
           (s\<lparr>mSustainedPerfModeOn := True\<rparr>,
            [EndHint ''VR_MODE'', DoHint ''VR_SUSTAINED_PERFORMANCE'']))
      else if \<not> data \<noteq> 0 \<and> mSustainedPerfModeOn s then
        (s\<lparr>mSustainedPerfModeOn := False\<rparr>,
         [EndHint ''VR_SUSTAINED_PERFORMANCE'', EndHint ''SUSTAINED_PERFORMANCE'']
         @ (if mVRModeOn s then [DoHint ''VR_MODE''] else []))
      else (s, []))"
| "powerHint_switch VR_MODE data s =
     (if data \<noteq> 0 \<and> \<not> mVRModeOn s then
        (if \<not> mSustainedPerfModeOn s then
           (s\<lparr>mVRModeOn := True\<rparr>, [DoHint ''VR_MODE''])
         else
           (s\<lparr>mVRModeOn := True\<rparr>,
            [EndHint ''SUSTAINED_PERFORMANCE'', DoHint ''VR_SUSTAINED_PERFORMANCE'']))
      else if \<not> data \<noteq> 0 \<and> mVRModeOn s then
        (s\<lparr>mVRModeOn := False\<rparr>,
         [EndHint ''VR_SUSTAINED_PERFORMANCE'', EndHint ''VR_MODE'']
         @ (if mSustainedPerfModeOn s then [DoHint ''SUSTAINED_PERFORMANCE''] else []))
      else (s, []))"
| "powerHint_switch LAUNCH data s =
     (if mVRModeOn s \<or> mSustainedPerfModeOn s then (s, [])
      else if data \<noteq> 0 then (s, [DoHint ''LAUNCH''])
      else (s, [EndHint ''LAUNCH'']))"
| "powerHint_switch LOW_POWER data s =
     (if data \<noteq> 0 then (s, [set_display_lpm True])
      else (s, [set_display_lpm False]))"
| "powerHint_switch OTHER_1_0 data s = (s, [])"

definition powerHint :: "string \<Rightarrow> PowerHint_1_0 \<Rightarrow> int32_t \<Rightarrow> Power \<Rightarrow> Power \<times> event list" where
  "powerHint buf hint data s =
     (case isSupportedGovernor buf of (supported, logged) \<Rightarrow>
        if \<not> supported \<or> \<not> mReady s then (s, logged)
        else (case powerHint_switch hint data s of (s', calls) \<Rightarrow> (s', logged @ calls)))"

text \<open>\<^verbatim>\<open>Power::powerHintAsync\<close> just calls \<^verbatim>\<open>powerHint\<close>.\<close>

definition powerHintAsync :: "string \<Rightarrow> PowerHint_1_0 \<Rightarrow> int32_t \<Rightarrow> Power \<Rightarrow> Power \<times> event list" where
  "powerHintAsync buf hint data s = powerHint buf hint data s"

text \<open>
  \<^verbatim>\<open>Power::powerHintAsync_1_2\<close>, after the governor and readiness check. The
  \<^verbatim>\<open>default\<close> branch calls \<^verbatim>\<open>powerHint\<close>, which checks again.
\<close>

fun powerHintAsync_1_2_switch ::
  "string \<Rightarrow> PowerHint_1_2 \<Rightarrow> int32_t \<Rightarrow> Power \<Rightarrow> Power \<times> event list" where
  "powerHintAsync_1_2_switch buf AUDIO_LOW_LATENCY data s =
     (if data \<noteq> 0 then (s, [DoHint ''AUDIO_LOW_LATENCY''])
      else (s, [EndHint ''AUDIO_LOW_LATENCY'']))"
| "powerHintAsync_1_2_switch buf AUDIO_STREAMING data s =
     (if mVRModeOn s \<or> mSustainedPerfModeOn s then (s, [])
      else if data = 1 then (s, [DoHint ''AUDIO_STREAMING''])
      else if data = 0 then (s, [EndHint ''AUDIO_STREAMING''])
      else if eq_size_t data kTpuBoostShort then
        (s, [DoHintFor ''TPU_BOOST'' (milliseconds (uint kTpuBoostDurationShortMs))])
      else if eq_size_t data kTpuBoostLong then
        (s, [DoHintFor ''TPU_BOOST'' (milliseconds (uint kTpuBoostDurationLongMs))])
      else if eq_size_t data kTpuBoostStop then (s, [EndHint ''TPU_BOOST''])
      else (s, [ALOGE ''AUDIO STREAMING INVALID DATA: %d'' data]))"
| "powerHintAsync_1_2_switch buf CAMERA_LAUNCH data s =
     (if 0 <s data then
        (s, [DoHintFor ''CAMERA_LAUNCH'' (milliseconds (sint data)),
             DoHintFor ''LAUNCH'' (milliseconds 2500)])
      else if data = 0 then (s, [EndHint ''CAMERA_LAUNCH''])
      else (s, [ALOGE ''CAMERA LAUNCH INVALID DATA: %d'' data]))"
| "powerHintAsync_1_2_switch buf CAMERA_STREAMING data s =
     (if 0 <s data then
        (s\<lparr>mCameraStreamingModeOn := True\<rparr>, [DoHint ''CAMERA_STREAMING''])
      else if data = 0 then
        (s\<lparr>mCameraStreamingModeOn := False\<rparr>,
         [EndHint ''CAMERA_STREAMING'', DoHintFor ''CAMERA_LAUNCH'' (seconds 1)])
      else (s, [ALOGE ''CAMERA STREAMING INVALID DATA: %d'' data]))"
| "powerHintAsync_1_2_switch buf CAMERA_SHOT data s =
     (if 0 <s data then (s, [DoHintFor ''CAMERA_SHOT'' (milliseconds (sint data))])
      else if data = 0 then (s, [EndHint ''CAMERA_SHOT''])
      else (s, [ALOGE ''CAMERA SHOT INVALID DATA: %d'' data]))"
| "powerHintAsync_1_2_switch buf (V1_0 hint) data s = powerHint buf hint data s"

definition powerHintAsync_1_2 ::
  "string \<Rightarrow> PowerHint_1_2 \<Rightarrow> int32_t \<Rightarrow> Power \<Rightarrow> Power \<times> event list" where
  "powerHintAsync_1_2 buf hint data s =
     (case isSupportedGovernor buf of (supported, logged) \<Rightarrow>
        if \<not> supported \<or> \<not> mReady s then (s, logged)
        else (case powerHintAsync_1_2_switch buf hint data s of
                (s', calls) \<Rightarrow> (s', logged @ calls)))"

text \<open>\<^verbatim>\<open>Power::powerHintAsync_1_3\<close>.\<close>

definition powerHintAsync_1_3 ::
  "string \<Rightarrow> PowerHint_1_3 \<Rightarrow> int32_t \<Rightarrow> Power \<Rightarrow> Power \<times> event list" where
  "powerHintAsync_1_3 buf hint data s =
     (case isSupportedGovernor buf of (supported, logged) \<Rightarrow>
        if \<not> supported \<or> \<not> mReady s then (s, logged)
        else (case
                (case hint of
                   EXPENSIVE_RENDERING \<Rightarrow>
                     (if mVRModeOn s \<or> mSustainedPerfModeOn s then (s, [])
                      else if 0 <s data then (s, [DoHint ''EXPENSIVE_RENDERING''])
                      else (s, [EndHint ''EXPENSIVE_RENDERING'']))
                 | V1_2 hint' \<Rightarrow> powerHintAsync_1_2 buf hint' data s)
              of (s', calls) \<Rightarrow> (s', logged @ calls)))"

subsection \<open>Sequences of requests\<close>

text \<open>
  A request names the entry point a client calls, the hint and the payload. \<open>handle\<close>
  dispatches one request, given what the governor file holds at that moment; \<open>run\<close>
  processes a list of them in order, threading the fields through and concatenating the
  calls made.
\<close>

datatype request =
    Req_powerHint PowerHint_1_0 int32_t
  | Req_powerHintAsync PowerHint_1_0 int32_t
  | Req_powerHintAsync_1_2 PowerHint_1_2 int32_t
  | Req_powerHintAsync_1_3 PowerHint_1_3 int32_t

fun handle :: "string \<Rightarrow> request \<Rightarrow> Power \<Rightarrow> Power \<times> event list" where
  "handle buf (Req_powerHint hint data) s = powerHint buf hint data s"
| "handle buf (Req_powerHintAsync hint data) s = powerHintAsync buf hint data s"
| "handle buf (Req_powerHintAsync_1_2 hint data) s = powerHintAsync_1_2 buf hint data s"
| "handle buf (Req_powerHintAsync_1_3 hint data) s = powerHintAsync_1_3 buf hint data s"

fun run :: "(string \<times> request) list \<Rightarrow> Power \<Rightarrow> Power \<times> event list" where
  "run [] s = (s, [])"
| "run ((buf, r) # rs) s =
     (case handle buf r s of (s', evs) \<Rightarrow>
        (case run rs s' of (s'', evs') \<Rightarrow> (s'', evs @ evs')))"

text \<open>The hint of a request, as an enumerator of the newest version.\<close>

fun hint_of :: "request \<Rightarrow> PowerHint_1_3" where
  "hint_of (Req_powerHint hint data) = V1_2 (V1_0 hint)"
| "hint_of (Req_powerHintAsync hint data) = V1_2 (V1_0 hint)"
| "hint_of (Req_powerHintAsync_1_2 hint data) = V1_2 hint"
| "hint_of (Req_powerHintAsync_1_3 hint data) = hint"

text \<open>The calls on the hint manager among the events.\<close>

fun is_executor_call :: "event \<Rightarrow> bool" where
  "is_executor_call (DoHint name) = True"
| "is_executor_call (DoHintFor name ms) = True"
| "is_executor_call (EndHint name) = True"
| "is_executor_call _ = False"

definition executor_calls :: "event list \<Rightarrow> event list" where
  "executor_calls evs = filter is_executor_call evs"

text \<open>
  The set of active hints: \<open>DoHint\<close> inserts the name, \<open>EndHint\<close> removes it; the
  expiry of a hint with a duration is not tracked.
\<close>

fun apply_event :: "string set \<Rightarrow> event \<Rightarrow> string set" where
  "apply_event A (DoHint name) = insert name A"
| "apply_event A (DoHintFor name ms) = insert name A"
| "apply_event A (EndHint name) = A - {name}"
| "apply_event A _ = A"

definition active_from :: "string set \<Rightarrow> event list \<Rightarrow> string set" where
  "active_from A evs = foldl apply_event A evs"

definition active_hints :: "event list \<Rightarrow> string set" where
  "active_hints evs = active_from {} evs"

text \<open>The payload of a request.\<close>

fun data_of :: "request \<Rightarrow> int32_t" where
  "data_of (Req_powerHint hint data) = data"
| "data_of (Req_powerHintAsync hint data) = data"
| "data_of (Req_powerHintAsync_1_2 hint data) = data"
| "data_of (Req_powerHintAsync_1_3 hint data) = data"

text \<open>A \<^verbatim>\<open>VR_MODE\<close> or \<^verbatim>\<open>SUSTAINED_PERFORMANCE\<close> request, at any entry point.\<close>

definition is_mode_request :: "request \<Rightarrow> bool" where
  "is_mode_request r =
     (hint_of r = V1_2 (V1_0 VR_MODE) \<or> hint_of r = V1_2 (V1_0 SUSTAINED_PERFORMANCE))"

subsection \<open>Notions used in the proofs\<close>

text \<open>
  The hints that the two coupled flags stand for: the composed hint when both are set,
  the plain hint of the one that is set, none otherwise.
\<close>

definition expected_hints :: "Power \<Rightarrow> string set" where
  "expected_hints s =
     (if mVRModeOn s \<and> mSustainedPerfModeOn s then {''VR_SUSTAINED_PERFORMANCE''}
      else if mVRModeOn s then {''VR_MODE''}
      else if mSustainedPerfModeOn s then {''SUSTAINED_PERFORMANCE''}
      else {})"

definition both_plain :: "string set \<Rightarrow> bool" where
  "both_plain A = (''VR_MODE'' \<in> A \<and> ''SUSTAINED_PERFORMANCE'' \<in> A)"

text \<open>No prefix of the events, applied to \<open>A\<close>, makes both plain hints active.\<close>

definition never_both_plain :: "string set \<Rightarrow> event list \<Rightarrow> bool" where
  "never_both_plain A evs =
     (\<forall>k \<le> length evs. \<not> both_plain (active_from A (take k evs)))"

section \<open>Properties\<close>

subsection \<open>The payload comparisons\<close>

lemma eq_size_t_iff: "eq_size_t d k \<longleftrightarrow> sint d = sint k"
proof -
  have "sint (scast d :: size_t) = sint d"
    by (simp add: sint_up_scast is_up)
  then show ?thesis
    unfolding eq_size_t_def by (metis signed_word_eqI)
qed

lemma sint_eq_iff: "sint (d :: int32_t) = sint (k :: int32_t) \<longleftrightarrow> d = k"
  by (auto intro: signed_word_eqI)

text \<open>The conversion to \<^verbatim>\<open>size_t\<close> identifies no other payload with a sentinel.\<close>

lemma eq_size_t_consts:
  "eq_size_t d kTpuBoostShort \<longleftrightarrow> d = 1001"
  "eq_size_t d kTpuBoostLong \<longleftrightarrow> d = 1002"
  "eq_size_t d kTpuBoostStop \<longleftrightarrow> d = 1000"
  using sint_eq_iff [of d 1001] sint_eq_iff [of d 1002] sint_eq_iff [of d 1000]
  by (simp_all add: eq_size_t_iff kTpuBoostShort_def kTpuBoostLong_def kTpuBoostStop_def)

lemma negative_payload: "data <s 0 \<Longrightarrow> \<not> 0 <s data \<and> data \<noteq> 0"
  by (auto simp: word_sless_alt)

subsection \<open>The governor and readiness check\<close>

lemma supported_no_log:
  "fst (isSupportedGovernor buf) \<Longrightarrow> isSupportedGovernor buf = (True, [])"
  by (simp add: isSupportedGovernor_def split: if_splits)

lemma powerHint_open:
  "mReady s \<Longrightarrow> fst (isSupportedGovernor buf) \<Longrightarrow>
   powerHint buf hint data s = powerHint_switch hint data s"
  by (simp add: powerHint_def supported_no_log)

lemma powerHintAsync_1_2_open:
  "mReady s \<Longrightarrow> fst (isSupportedGovernor buf) \<Longrightarrow>
   powerHintAsync_1_2 buf hint data s = powerHintAsync_1_2_switch buf hint data s"
  by (simp add: powerHintAsync_1_2_def supported_no_log)

lemma powerHintAsync_1_3_open:
  "mReady s \<Longrightarrow> fst (isSupportedGovernor buf) \<Longrightarrow>
   powerHintAsync_1_3 buf hint data s =
     (case hint of
        EXPENSIVE_RENDERING \<Rightarrow>
          (if mVRModeOn s \<or> mSustainedPerfModeOn s then (s, [])
           else if 0 <s data then (s, [DoHint ''EXPENSIVE_RENDERING''])
           else (s, [EndHint ''EXPENSIVE_RENDERING'']))
      | V1_2 hint' \<Rightarrow> powerHintAsync_1_2_switch buf hint' data s)"
  by (simp add: powerHintAsync_1_3_def supported_no_log powerHintAsync_1_2_open
      split: PowerHint_1_3.splits)

lemma powerHint_closed:
  "\<not> mReady s \<or> \<not> fst (isSupportedGovernor buf) \<Longrightarrow>
   powerHint buf hint data s = (s, snd (isSupportedGovernor buf))"
  by (auto simp add: powerHint_def split: prod.splits)

lemma powerHintAsync_1_2_closed:
  "\<not> mReady s \<or> \<not> fst (isSupportedGovernor buf) \<Longrightarrow>
   powerHintAsync_1_2 buf hint data s = (s, snd (isSupportedGovernor buf))"
  by (auto simp add: powerHintAsync_1_2_def split: prod.splits)

lemma powerHintAsync_1_3_closed:
  "\<not> mReady s \<or> \<not> fst (isSupportedGovernor buf) \<Longrightarrow>
   powerHintAsync_1_3 buf hint data s = (s, snd (isSupportedGovernor buf))"
  by (auto simp add: powerHintAsync_1_3_def split: prod.splits)

lemma handle_closed:
  "\<not> mReady s \<or> \<not> fst (isSupportedGovernor buf) \<Longrightarrow>
   handle buf r s = (s, snd (isSupportedGovernor buf))"
  by (cases r)
     (simp_all add: powerHint_closed powerHintAsync_def powerHintAsync_1_2_closed
        powerHintAsync_1_3_closed)

text \<open>
  Past the check every entry point reaches the same code for a hint: the branch of
  \<^verbatim>\<open>powerHintAsync_1_3\<close>, or the \<^verbatim>\<open>switch\<close> of \<^verbatim>\<open>powerHintAsync_1_2\<close>.
\<close>

lemma handle_open:
  "mReady s \<Longrightarrow> fst (isSupportedGovernor buf) \<Longrightarrow>
   handle buf r s =
     (case hint_of r of
        EXPENSIVE_RENDERING \<Rightarrow>
          (if mVRModeOn s \<or> mSustainedPerfModeOn s then (s, [])
           else if 0 <s data_of r then (s, [DoHint ''EXPENSIVE_RENDERING''])
           else (s, [EndHint ''EXPENSIVE_RENDERING'']))
      | V1_2 hint' \<Rightarrow> powerHintAsync_1_2_switch buf hint' (data_of r) s)"
  by (cases r)
     (simp_all add: powerHint_open powerHintAsync_def powerHintAsync_1_2_open
        powerHintAsync_1_3_open split: PowerHint_1_3.splits)

lemma handle_mode_open:
  "mReady s \<Longrightarrow> fst (isSupportedGovernor buf) \<Longrightarrow> hint_of r = V1_2 (V1_0 hint) \<Longrightarrow>
   handle buf r s = powerHint_switch hint (data_of r) s"
  by (simp add: handle_open powerHint_open)

text \<open>No handler writes \<^verbatim>\<open>mReady\<close>.\<close>

lemma powerHint_switch_mReady: "mReady (fst (powerHint_switch hint data s)) = mReady s"
  by (cases hint) simp_all

lemma powerHintAsync_1_2_switch_mReady:
  "mReady (fst (powerHintAsync_1_2_switch buf hint data s)) = mReady s"
  by (cases hint)
     (simp_all add: powerHint_def powerHint_switch_mReady split: prod.splits,
      metis fst_conv powerHint_switch_mReady)

lemma handle_mReady: "mReady (fst (handle buf r s)) = mReady s"
proof (cases "mReady s \<and> fst (isSupportedGovernor buf)")
  case True
  then show ?thesis
    by (cases "hint_of r") (simp_all add: handle_open powerHintAsync_1_2_switch_mReady)
next
  case False
  then show ?thesis by (simp add: handle_closed)
qed

lemma executor_calls_log: "executor_calls (snd (isSupportedGovernor buf)) = []"
  by (simp add: executor_calls_def isSupportedGovernor_def)

lemma executor_calls_only_log:
  "set evs \<subseteq> {LOG_ERROR msg} \<Longrightarrow> executor_calls evs = []"
  by (induction evs) (auto simp: executor_calls_def)

subsection \<open>The scenario VR on, sustained on, VR off\<close>

text \<open>
  Claim C1. From the state with all mode flags false and \<^verbatim>\<open>mReady\<close> set, under a
  supported governor, the requests \<^verbatim>\<open>VR_MODE(1)\<close>, \<^verbatim>\<open>SUSTAINED_PERFORMANCE(1)\<close>,
  \<^verbatim>\<open>VR_MODE(0)\<close> make exactly the calls \<open>DoHint VR_MODE\<close>; \<open>EndHint VR_MODE\<close>,
  \<open>DoHint VR_SUSTAINED_PERFORMANCE\<close>; \<open>EndHint VR_SUSTAINED_PERFORMANCE\<close>,
  \<open>EndHint VR_MODE\<close>, \<open>DoHint SUSTAINED_PERFORMANCE\<close>, and end with
  \<^verbatim>\<open>mSustainedPerfModeOn\<close> as the only mode flag set. The first conjunct sends the
  requests through \<^verbatim>\<open>powerHint\<close> under \<^verbatim>\<open>schedutil\<close>, the second through the three
  other entry points under \<^verbatim>\<open>sched\<close>.
\<close>

theorem scenario_vr_sustained_vr_off:
  "run [(''schedutil'', Req_powerHint VR_MODE 1),
        (''schedutil'', Req_powerHint SUSTAINED_PERFORMANCE 1),
        (''schedutil'', Req_powerHint VR_MODE 0)] (Power_ctor\<lparr>mReady := True\<rparr>)
   = (\<lparr>mVRModeOn = False, mSustainedPerfModeOn = True,
       mCameraStreamingModeOn = False, mReady = True\<rparr>,
      [DoHint ''VR_MODE'',
       EndHint ''VR_MODE'', DoHint ''VR_SUSTAINED_PERFORMANCE'',
       EndHint ''VR_SUSTAINED_PERFORMANCE'', EndHint ''VR_MODE'',
       DoHint ''SUSTAINED_PERFORMANCE''])
   \<and> run [(''sched'', Req_powerHintAsync_1_3 (V1_2 (V1_0 VR_MODE)) 1),
        (''sched'', Req_powerHintAsync_1_2 (V1_0 SUSTAINED_PERFORMANCE) 1),
        (''sched'', Req_powerHintAsync VR_MODE 0)] (Power_ctor\<lparr>mReady := True\<rparr>)
   = (\<lparr>mVRModeOn = False, mSustainedPerfModeOn = True,
       mCameraStreamingModeOn = False, mReady = True\<rparr>,
      [DoHint ''VR_MODE'',
       EndHint ''VR_MODE'', DoHint ''VR_SUSTAINED_PERFORMANCE'',
       EndHint ''VR_SUSTAINED_PERFORMANCE'', EndHint ''VR_MODE'',
       DoHint ''SUSTAINED_PERFORMANCE''])"
  by (simp add: powerHint_def powerHintAsync_def powerHintAsync_1_2_def powerHintAsync_1_3_def
      isSupportedGovernor_def Power_ctor_def)

theorem scenario_vr_sustained_vr_off_witness:
  "executor_calls (snd (run [(''schedutil'', Req_powerHint VR_MODE 1),
        (''schedutil'', Req_powerHint SUSTAINED_PERFORMANCE 1),
        (''schedutil'', Req_powerHint VR_MODE 0)] (Power_ctor\<lparr>mReady := True\<rparr>)))
   = [DoHint ''VR_MODE'',
      EndHint ''VR_MODE'', DoHint ''VR_SUSTAINED_PERFORMANCE'',
      EndHint ''VR_SUSTAINED_PERFORMANCE'', EndHint ''VR_MODE'',
      DoHint ''SUSTAINED_PERFORMANCE'']
   \<and> mSustainedPerfModeOn (fst (run [(''schedutil'', Req_powerHint VR_MODE 1),
        (''schedutil'', Req_powerHint SUSTAINED_PERFORMANCE 1),
        (''schedutil'', Req_powerHint VR_MODE 0)] (Power_ctor\<lparr>mReady := True\<rparr>)))
   \<and> \<not> mVRModeOn (fst (run [(''schedutil'', Req_powerHint VR_MODE 1),
        (''schedutil'', Req_powerHint SUSTAINED_PERFORMANCE 1),
        (''schedutil'', Req_powerHint VR_MODE 0)] (Power_ctor\<lparr>mReady := True\<rparr>)))
   \<and> \<not> mCameraStreamingModeOn (fst (run [(''schedutil'', Req_powerHint VR_MODE 1),
        (''schedutil'', Req_powerHint SUSTAINED_PERFORMANCE 1),
        (''schedutil'', Req_powerHint VR_MODE 0)] (Power_ctor\<lparr>mReady := True\<rparr>)))"
  using scenario_vr_sustained_vr_off
  by (simp add: executor_calls_def)

subsection \<open>Suppression while VR mode is on\<close>

text \<open>
  Claim C3. While \<^verbatim>\<open>mVRModeOn\<close> is set (with \<^verbatim>\<open>mReady\<close> set and a supported governor),
  an \<^verbatim>\<open>INTERACTION\<close>, \<^verbatim>\<open>LAUNCH\<close>, \<^verbatim>\<open>AUDIO_STREAMING\<close> or \<^verbatim>\<open>EXPENSIVE_RENDERING\<close>
  request of any payload makes no call at all, hence none on the hint manager, and leaves
  the fields as they are; at every entry point that takes the hint.
\<close>

theorem suppressed_while_vr_mode:
  assumes "mVRModeOn s" and "mReady s" and "fst (isSupportedGovernor buf)"
  shows "powerHint buf INTERACTION data s = (s, [])
    \<and> powerHint buf LAUNCH data s = (s, [])
    \<and> powerHintAsync buf INTERACTION data s = (s, [])
    \<and> powerHintAsync buf LAUNCH data s = (s, [])
    \<and> powerHintAsync_1_2 buf (V1_0 INTERACTION) data s = (s, [])
    \<and> powerHintAsync_1_2 buf (V1_0 LAUNCH) data s = (s, [])
    \<and> powerHintAsync_1_2 buf AUDIO_STREAMING data s = (s, [])
    \<and> powerHintAsync_1_3 buf (V1_2 (V1_0 INTERACTION)) data s = (s, [])
    \<and> powerHintAsync_1_3 buf (V1_2 (V1_0 LAUNCH)) data s = (s, [])
    \<and> powerHintAsync_1_3 buf (V1_2 AUDIO_STREAMING) data s = (s, [])
    \<and> powerHintAsync_1_3 buf EXPENSIVE_RENDERING data s = (s, [])"
  using assms
  by (simp add: powerHint_open powerHintAsync_def powerHintAsync_1_2_open
      powerHintAsync_1_3_open)

theorem suppressed_while_vr_mode_witness:
  "mVRModeOn \<lparr>mVRModeOn = True, mSustainedPerfModeOn = False,
         mCameraStreamingModeOn = False, mReady = True\<rparr>
   \<and> mReady \<lparr>mVRModeOn = True, mSustainedPerfModeOn = False,
         mCameraStreamingModeOn = False, mReady = True\<rparr>
   \<and> fst (isSupportedGovernor ''schedutil'')
   \<and> powerHint ''schedutil'' LAUNCH 1 \<lparr>mVRModeOn = True, mSustainedPerfModeOn = False,
         mCameraStreamingModeOn = False, mReady = True\<rparr> = (\<lparr>mVRModeOn = True, mSustainedPerfModeOn = False,
         mCameraStreamingModeOn = False, mReady = True\<rparr>, [])
   \<and> powerHintAsync_1_2 ''schedutil'' AUDIO_STREAMING 1 \<lparr>mVRModeOn = True, mSustainedPerfModeOn = False,
         mCameraStreamingModeOn = False, mReady = True\<rparr> = (\<lparr>mVRModeOn = True, mSustainedPerfModeOn = False,
         mCameraStreamingModeOn = False, mReady = True\<rparr>, [])
   \<and> powerHintAsync_1_3 ''schedutil'' EXPENSIVE_RENDERING 1 \<lparr>mVRModeOn = True, mSustainedPerfModeOn = False,
         mCameraStreamingModeOn = False, mReady = True\<rparr> = (\<lparr>mVRModeOn = True, mSustainedPerfModeOn = False,
         mCameraStreamingModeOn = False, mReady = True\<rparr>, [])"
  using suppressed_while_vr_mode [where s = "\<lparr>mVRModeOn = True, mSustainedPerfModeOn = False,
         mCameraStreamingModeOn = False, mReady = True\<rparr>" and buf = "''schedutil''" and data = 1]
  by (simp add: isSupportedGovernor_def)

subsection \<open>Camera launch\<close>

text \<open>
  Claim C4 says that a \<^verbatim>\<open>CAMERA_LAUNCH\<close> request with a positive payload makes no call
  on the hint manager while \<^verbatim>\<open>mVRModeOn\<close> or \<^verbatim>\<open>mSustainedPerfModeOn\<close> is set. The
  \<^verbatim>\<open>CAMERA_LAUNCH\<close> branch does not read the two flags: with \<^verbatim>\<open>mVRModeOn\<close> set, payload
  1 makes both activations.
\<close>

theorem camera_launch_suppressed_counterexample:
  "mVRModeOn (Power_ctor\<lparr>mVRModeOn := True, mReady := True\<rparr>)
   \<and> (0::int32_t) <s 1
   \<and> executor_calls (snd (powerHintAsync_1_2 ''schedutil'' CAMERA_LAUNCH 1
         (Power_ctor\<lparr>mVRModeOn := True, mReady := True\<rparr>)))
     = [DoHintFor ''CAMERA_LAUNCH'' 1, DoHintFor ''LAUNCH'' 2500]"
  by (simp add: powerHintAsync_1_2_def isSupportedGovernor_def Power_ctor_def
      executor_calls_def milliseconds_def word_sless_alt)

text \<open>
  Claim C4, amended. \<^verbatim>\<open>CAMERA_LAUNCH\<close> is not suppressed: while \<^verbatim>\<open>mVRModeOn\<close> or
  \<^verbatim>\<open>mSustainedPerfModeOn\<close> is set (with \<^verbatim>\<open>mReady\<close> set and a supported governor), a
  \<^verbatim>\<open>CAMERA_LAUNCH\<close> request with a positive payload \<open>p\<close> still activates
  \<^verbatim>\<open>CAMERA_LAUNCH\<close> for \<open>p\<close> ms and then \<^verbatim>\<open>LAUNCH\<close> for 2500 ms, and changes no flag.
\<close>

theorem camera_launch_not_suppressed:
  assumes "mVRModeOn s \<or> mSustainedPerfModeOn s"
    and "0 <s data" and "mReady s" and "fst (isSupportedGovernor buf)"
  shows "powerHintAsync_1_2 buf CAMERA_LAUNCH data s
      = (s, [DoHintFor ''CAMERA_LAUNCH'' (sint data), DoHintFor ''LAUNCH'' 2500])
    \<and> powerHintAsync_1_3 buf (V1_2 CAMERA_LAUNCH) data s
      = (s, [DoHintFor ''CAMERA_LAUNCH'' (sint data), DoHintFor ''LAUNCH'' 2500])"
  using assms(2-4)
  by (simp add: powerHintAsync_1_2_open powerHintAsync_1_3_open milliseconds_def)

theorem camera_launch_not_suppressed_witness:
  "(mVRModeOn \<lparr>mVRModeOn = True, mSustainedPerfModeOn = False,
         mCameraStreamingModeOn = False, mReady = True\<rparr> \<or> mSustainedPerfModeOn \<lparr>mVRModeOn = True, mSustainedPerfModeOn = False,
         mCameraStreamingModeOn = False, mReady = True\<rparr>)
   \<and> (0::int32_t) <s 300
   \<and> mReady \<lparr>mVRModeOn = True, mSustainedPerfModeOn = False,
         mCameraStreamingModeOn = False, mReady = True\<rparr>
   \<and> fst (isSupportedGovernor ''sched'')
   \<and> powerHintAsync_1_3 ''sched'' (V1_2 CAMERA_LAUNCH) 300 \<lparr>mVRModeOn = True, mSustainedPerfModeOn = False,
         mCameraStreamingModeOn = False, mReady = True\<rparr>
     = (\<lparr>mVRModeOn = True, mSustainedPerfModeOn = False,
         mCameraStreamingModeOn = False, mReady = True\<rparr>, [DoHintFor ''CAMERA_LAUNCH'' 300, DoHintFor ''LAUNCH'' 2500])"
  using camera_launch_not_suppressed [where s = "\<lparr>mVRModeOn = True, mSustainedPerfModeOn = False,
         mCameraStreamingModeOn = False, mReady = True\<rparr>" and buf = "''sched''" and data = 300]
  by (simp add: isSupportedGovernor_def word_sless_alt)

text \<open>
  Claim C5. For every payload \<open>p > 0\<close> and every state with \<^verbatim>\<open>mReady\<close> set, whatever the
  mode flags, under a supported governor, a \<^verbatim>\<open>CAMERA_LAUNCH\<close> request makes exactly two
  calls, in this order: \<^verbatim>\<open>CAMERA_LAUNCH\<close> is activated for \<open>p\<close> ms, then \<^verbatim>\<open>LAUNCH\<close> for
  2500 ms. The handler keeps no record of an earlier \<^verbatim>\<open>LAUNCH\<close> activation, so the calls
  do not depend on one.
\<close>

theorem camera_launch_two_activations:
  assumes "0 <s data" and "mReady s" and "fst (isSupportedGovernor buf)"
  shows "powerHintAsync_1_2 buf CAMERA_LAUNCH data s
      = (s, [DoHintFor ''CAMERA_LAUNCH'' (sint data), DoHintFor ''LAUNCH'' 2500])
    \<and> powerHintAsync_1_3 buf (V1_2 CAMERA_LAUNCH) data s
      = (s, [DoHintFor ''CAMERA_LAUNCH'' (sint data), DoHintFor ''LAUNCH'' 2500])"
  using assms
  by (simp add: powerHintAsync_1_2_open powerHintAsync_1_3_open milliseconds_def)

theorem camera_launch_two_activations_witness:
  "(0::int32_t) <s 40
   \<and> mReady (Power_ctor\<lparr>mReady := True\<rparr>)
   \<and> fst (isSupportedGovernor ''schedutil'')
   \<and> powerHintAsync_1_2 ''schedutil'' CAMERA_LAUNCH 40 (Power_ctor\<lparr>mReady := True\<rparr>)
     = (Power_ctor\<lparr>mReady := True\<rparr>,
        [DoHintFor ''CAMERA_LAUNCH'' 40, DoHintFor ''LAUNCH'' 2500])"
  using camera_launch_two_activations
    [where s = "Power_ctor\<lparr>mReady := True\<rparr>" and buf = "''schedutil''" and data = 40]
  by (simp add: isSupportedGovernor_def word_sless_alt)

subsection \<open>Camera streaming\<close>

text \<open>
  Claim C6. Whatever \<^verbatim>\<open>mCameraStreamingModeOn\<close> holds, with \<^verbatim>\<open>mReady\<close> set and a
  supported governor, a \<^verbatim>\<open>CAMERA_STREAMING\<close> request with payload 0 deactivates
  \<^verbatim>\<open>CAMERA_STREAMING\<close>, activates \<^verbatim>\<open>CAMERA_LAUNCH\<close> for exactly 1000 ms, and clears
  \<^verbatim>\<open>mCameraStreamingModeOn\<close>.
\<close>

theorem camera_streaming_off:
  assumes "mReady s" and "fst (isSupportedGovernor buf)"
  shows "powerHintAsync_1_2 buf CAMERA_STREAMING 0 s
      = (s\<lparr>mCameraStreamingModeOn := False\<rparr>,
         [EndHint ''CAMERA_STREAMING'', DoHintFor ''CAMERA_LAUNCH'' 1000])
    \<and> powerHintAsync_1_3 buf (V1_2 CAMERA_STREAMING) 0 s
      = (s\<lparr>mCameraStreamingModeOn := False\<rparr>,
         [EndHint ''CAMERA_STREAMING'', DoHintFor ''CAMERA_LAUNCH'' 1000])"
  using assms
  by (simp add: powerHintAsync_1_2_open powerHintAsync_1_3_open seconds_def)

theorem camera_streaming_off_witness:
  "mReady (Power_ctor\<lparr>mCameraStreamingModeOn := True, mReady := True\<rparr>)
   \<and> fst (isSupportedGovernor ''schedutil'')
   \<and> powerHintAsync_1_2 ''schedutil'' CAMERA_STREAMING 0
       (Power_ctor\<lparr>mCameraStreamingModeOn := True, mReady := True\<rparr>)
     = (Power_ctor\<lparr>mReady := True\<rparr>,
        [EndHint ''CAMERA_STREAMING'', DoHintFor ''CAMERA_LAUNCH'' 1000])
   \<and> powerHintAsync_1_3 ''schedutil'' (V1_2 CAMERA_STREAMING) 0 (Power_ctor\<lparr>mReady := True\<rparr>)
     = (Power_ctor\<lparr>mReady := True\<rparr>,
        [EndHint ''CAMERA_STREAMING'', DoHintFor ''CAMERA_LAUNCH'' 1000])"
  using camera_streaming_off
    [where s = "Power_ctor\<lparr>mCameraStreamingModeOn := True, mReady := True\<rparr>"
       and buf = "''schedutil''"]
    camera_streaming_off [where s = "Power_ctor\<lparr>mReady := True\<rparr>" and buf = "''schedutil''"]
  by (simp add: isSupportedGovernor_def Power_ctor_def)

subsection \<open>Enabling a mode twice\<close>

lemma powerHint_switch_enable_again:
  "data \<noteq> 0 \<Longrightarrow> hint = VR_MODE \<or> hint = SUSTAINED_PERFORMANCE \<Longrightarrow>
   powerHint_switch hint data (fst (powerHint_switch hint data s))
     = (fst (powerHint_switch hint data s), [])"
  by auto

text \<open>
  Claim C7. A \<^verbatim>\<open>VR_MODE\<close> or \<^verbatim>\<open>SUSTAINED_PERFORMANCE\<close> request with a payload other than
  0, processed twice in a row from any state (at any entry point, the governor file holding
  the same for both), makes the calls on the hint manager of the first request alone: the
  second request makes none and leaves the fields as the first left them.
\<close>

theorem enable_twice_is_enable_once:
  assumes "is_mode_request r" and "data_of r \<noteq> 0"
  shows "fst (handle buf r (fst (handle buf r s))) = fst (handle buf r s)
    \<and> executor_calls (snd (handle buf r (fst (handle buf r s)))) = []
    \<and> fst (run [(buf, r), (buf, r)] s) = fst (handle buf r s)
    \<and> executor_calls (snd (run [(buf, r), (buf, r)] s)) = executor_calls (snd (handle buf r s))"
proof -
  let ?s1 = "fst (handle buf r s)"
  have second: "fst (handle buf r ?s1) = ?s1 \<and> executor_calls (snd (handle buf r ?s1)) = []"
  proof (cases "mReady s \<and> fst (isSupportedGovernor buf)")
    case True
    from assms(1) obtain hint where h: "hint_of r = V1_2 (V1_0 hint)"
      and m: "hint = VR_MODE \<or> hint = SUSTAINED_PERFORMANCE"
      by (auto simp: is_mode_request_def)
    from True have r1: "mReady ?s1" by (simp add: handle_mReady)
    have "handle buf r s = powerHint_switch hint (data_of r) s"
      using True h by (simp add: handle_mode_open)
    moreover have "handle buf r ?s1 = powerHint_switch hint (data_of r) ?s1"
      using True r1 h by (simp add: handle_mode_open)
    ultimately have "handle buf r ?s1 = (?s1, [])"
      using powerHint_switch_enable_again [OF assms(2) m, of s] by simp
    then show ?thesis by (simp add: executor_calls_def)
  next
    case False
    then have "handle buf r s = (s, snd (isSupportedGovernor buf))"
      by (simp add: handle_closed)
    then show ?thesis using False by (simp add: handle_closed executor_calls_log)
  qed
  then show ?thesis
    by (simp add: executor_calls_def case_prod_beta)
qed

theorem enable_twice_is_enable_once_witness:
  "is_mode_request (Req_powerHint VR_MODE 1) \<and> data_of (Req_powerHint VR_MODE 1) \<noteq> 0
   \<and> executor_calls (snd (run [(''schedutil'', Req_powerHint VR_MODE 1),
                               (''schedutil'', Req_powerHint VR_MODE 1)]
                            (Power_ctor\<lparr>mReady := True\<rparr>)))
     = [DoHint ''VR_MODE'']
   \<and> fst (run [(''schedutil'', Req_powerHint VR_MODE 1),
               (''schedutil'', Req_powerHint VR_MODE 1)] (Power_ctor\<lparr>mReady := True\<rparr>))
     = Power_ctor\<lparr>mVRModeOn := True, mReady := True\<rparr>"
  using enable_twice_is_enable_once [where r = "Req_powerHint VR_MODE 1"
      and buf = "''schedutil''" and s = "Power_ctor\<lparr>mReady := True\<rparr>"]
  by (simp add: is_mode_request_def powerHint_def isSupportedGovernor_def Power_ctor_def
      executor_calls_def)

subsection \<open>Requests dropped by the governor and readiness check\<close>

lemma run_closed:
  "\<forall>(buf, r) \<in> set reqs. \<not> mReady s \<or> \<not> fst (isSupportedGovernor buf) \<Longrightarrow>
   fst (run reqs s) = s
   \<and> set (snd (run reqs s)) \<subseteq> {LOG_ERROR ''Governor not supported by powerHAL, skipping''}"
proof (induction reqs)
  case Nil
  then show ?case by simp
next
  case (Cons a reqs)
  obtain buf r where a: "a = (buf, r)" by (cases a)
  from Cons.prems a have closed: "\<not> mReady s \<or> \<not> fst (isSupportedGovernor buf)" by simp
  have h: "handle buf r s = (s, snd (isSupportedGovernor buf))"
    using closed by (rule handle_closed)
  have l: "set (snd (isSupportedGovernor buf))
      \<subseteq> {LOG_ERROR ''Governor not supported by powerHAL, skipping''}"
    by (simp add: isSupportedGovernor_def)
  from Cons have ih: "fst (run reqs s) = s
    \<and> set (snd (run reqs s)) \<subseteq> {LOG_ERROR ''Governor not supported by powerHAL, skipping''}"
    by simp
  show ?case using a h l ih by (simp split: prod.splits) auto
qed

text \<open>
  Claim C8. Whatever the hints, the payloads and the entry points of a sequence of
  requests, if at each of them \<^verbatim>\<open>mReady\<close> is false or the governor is not one of the two
  supported ones, the whole sequence leaves every field as it was and makes no call on the
  hint manager; the only events are the error messages of \<^verbatim>\<open>isSupportedGovernor\<close>, so
  that the interaction handler and the display helper are not called either.
\<close>

theorem dropped_requests_no_op:
  assumes "\<forall>(buf, r) \<in> set reqs. \<not> mReady s \<or> \<not> fst (isSupportedGovernor buf)"
  shows "fst (run reqs s) = s
    \<and> executor_calls (snd (run reqs s)) = []
    \<and> set (snd (run reqs s)) \<subseteq> {LOG_ERROR ''Governor not supported by powerHAL, skipping''}"
  using run_closed [OF assms] executor_calls_only_log by blast

theorem dropped_requests_no_op_witness:
  "\<not> fst (isSupportedGovernor ''performance'') \<and> \<not> mReady Power_ctor
   \<and> run [(''performance'', Req_powerHint VR_MODE 1),
          (''performance'', Req_powerHintAsync_1_3 (V1_2 CAMERA_LAUNCH) 5)]
       (Power_ctor\<lparr>mReady := True\<rparr>)
     = (Power_ctor\<lparr>mReady := True\<rparr>,
        [LOG_ERROR ''Governor not supported by powerHAL, skipping'',
         LOG_ERROR ''Governor not supported by powerHAL, skipping''])
   \<and> run [(''schedutil'', Req_powerHintAsync_1_2 CAMERA_STREAMING 1),
          (''schedutil'', Req_powerHintAsync SUSTAINED_PERFORMANCE 1)] Power_ctor
     = (Power_ctor, [])"
  using dropped_requests_no_op [where s = "Power_ctor\<lparr>mReady := True\<rparr>"
      and reqs = "[(''performance'', Req_powerHint VR_MODE 1),
          (''performance'', Req_powerHintAsync_1_3 (V1_2 CAMERA_LAUNCH) 5)]"]
    dropped_requests_no_op [where s = "Power_ctor"
      and reqs = "[(''schedutil'', Req_powerHintAsync_1_2 CAMERA_STREAMING 1),
          (''schedutil'', Req_powerHintAsync SUSTAINED_PERFORMANCE 1)]"]
  by (simp add: isSupportedGovernor_def Power_ctor_def powerHint_def powerHintAsync_def
      powerHintAsync_1_2_def powerHintAsync_1_3_def)

subsection \<open>Payloads outside the expected values\<close>

text \<open>
  Claim C9 says that a request whose payload is outside the expected values for its kind
  logs an error. An \<^verbatim>\<open>AUDIO_STREAMING\<close> payload is only looked at when neither
  \<^verbatim>\<open>mVRModeOn\<close> nor \<^verbatim>\<open>mSustainedPerfModeOn\<close> is set: with \<^verbatim>\<open>mVRModeOn\<close> set, payload 5
  (none of 0, 1, 1000, 1001, 1002) is dropped with no event at all, so no error is logged.
\<close>

theorem invalid_payload_logs_counterexample:
  "(5::int32_t) \<noteq> 0 \<and> (5::int32_t) \<noteq> 1 \<and> (5::int32_t) \<noteq> 1000
   \<and> (5::int32_t) \<noteq> 1001 \<and> (5::int32_t) \<noteq> 1002
   \<and> mReady (Power_ctor\<lparr>mVRModeOn := True, mReady := True\<rparr>)
   \<and> fst (isSupportedGovernor ''schedutil'')
   \<and> powerHintAsync_1_2 ''schedutil'' AUDIO_STREAMING 5
        (Power_ctor\<lparr>mVRModeOn := True, mReady := True\<rparr>)
     = (Power_ctor\<lparr>mVRModeOn := True, mReady := True\<rparr>, [])"
  by (simp add: powerHintAsync_1_2_def isSupportedGovernor_def Power_ctor_def)

text \<open>
  Claim C9, amended. With \<^verbatim>\<open>mReady\<close> set and a supported governor, a \<^verbatim>\<open>CAMERA_LAUNCH\<close>,
  \<^verbatim>\<open>CAMERA_STREAMING\<close> or \<^verbatim>\<open>CAMERA_SHOT\<close> request with a negative payload logs an
  error and does nothing else: no call on the hint manager, no field written, and the
  handler returns. An \<^verbatim>\<open>AUDIO_STREAMING\<close> request with a payload that is none of 0, 1,
  1000, 1001, 1002 likewise makes no call and writes no field; it logs the error when
  neither \<^verbatim>\<open>mVRModeOn\<close> nor \<^verbatim>\<open>mSustainedPerfModeOn\<close> is set, and is dropped without a
  log when one of them is.
\<close>

theorem invalid_payload_ignored:
  assumes "mReady s" and "fst (isSupportedGovernor buf)"
  shows "(data <s 0 \<longrightarrow>
        powerHintAsync_1_2 buf CAMERA_LAUNCH data s
          = (s, [ALOGE ''CAMERA LAUNCH INVALID DATA: %d'' data])
      \<and> powerHintAsync_1_2 buf CAMERA_STREAMING data s
          = (s, [ALOGE ''CAMERA STREAMING INVALID DATA: %d'' data])
      \<and> powerHintAsync_1_2 buf CAMERA_SHOT data s
          = (s, [ALOGE ''CAMERA SHOT INVALID DATA: %d'' data])
      \<and> powerHintAsync_1_3 buf (V1_2 CAMERA_LAUNCH) data s
          = (s, [ALOGE ''CAMERA LAUNCH INVALID DATA: %d'' data])
      \<and> powerHintAsync_1_3 buf (V1_2 CAMERA_STREAMING) data s
          = (s, [ALOGE ''CAMERA STREAMING INVALID DATA: %d'' data])
      \<and> powerHintAsync_1_3 buf (V1_2 CAMERA_SHOT) data s
          = (s, [ALOGE ''CAMERA SHOT INVALID DATA: %d'' data]))
    \<and> (data \<noteq> 0 \<and> data \<noteq> 1 \<and> data \<noteq> 1000 \<and> data \<noteq> 1001 \<and> data \<noteq> 1002 \<longrightarrow>
        powerHintAsync_1_2 buf AUDIO_STREAMING data s
          = (s, if mVRModeOn s \<or> mSustainedPerfModeOn s then []
                else [ALOGE ''AUDIO STREAMING INVALID DATA: %d'' data])
      \<and> powerHintAsync_1_3 buf (V1_2 AUDIO_STREAMING) data s
          = (s, if mVRModeOn s \<or> mSustainedPerfModeOn s then []
                else [ALOGE ''AUDIO STREAMING INVALID DATA: %d'' data]))"
  using assms
  by (simp add: powerHintAsync_1_2_open powerHintAsync_1_3_open negative_payload
      eq_size_t_consts)

theorem invalid_payload_ignored_witness:
  "mReady (Power_ctor\<lparr>mReady := True\<rparr>) \<and> fst (isSupportedGovernor ''sched'')
   \<and> (-1 :: int32_t) <s 0
   \<and> (-1 :: int32_t) \<noteq> 0 \<and> (-1 :: int32_t) \<noteq> 1 \<and> (-1 :: int32_t) \<noteq> 1000
   \<and> (-1 :: int32_t) \<noteq> 1001 \<and> (-1 :: int32_t) \<noteq> 1002
   \<and> powerHintAsync_1_2 ''sched'' CAMERA_SHOT (-1) (Power_ctor\<lparr>mReady := True\<rparr>)
     = (Power_ctor\<lparr>mReady := True\<rparr>, [ALOGE ''CAMERA SHOT INVALID DATA: %d'' (-1)])
   \<and> powerHintAsync_1_2 ''sched'' AUDIO_STREAMING (-1) (Power_ctor\<lparr>mReady := True\<rparr>)
     = (Power_ctor\<lparr>mReady := True\<rparr>, [ALOGE ''AUDIO STREAMING INVALID DATA: %d'' (-1)])"
  using invalid_payload_ignored [where s = "Power_ctor\<lparr>mReady := True\<rparr>" and buf = "''sched''"
                      and data = "-1"]
  by (simp add: isSupportedGovernor_def Power_ctor_def word_sless_alt)

subsection \<open>Which requests write which flags\<close>

lemma powerHint_switch_frame:
  "hint \<noteq> VR_MODE \<Longrightarrow> hint \<noteq> SUSTAINED_PERFORMANCE \<Longrightarrow>
   fst (powerHint_switch hint data s) = s"
  by (cases hint) simp_all

lemma powerHint_frame:
  "hint \<noteq> VR_MODE \<Longrightarrow> hint \<noteq> SUSTAINED_PERFORMANCE \<Longrightarrow>
   fst (powerHint buf hint data s) = s"
  using powerHint_switch_frame [of hint data s]
  by (auto simp: powerHint_def split: prod.splits)

lemma powerHintAsync_1_2_switch_frame:
  "hint \<noteq> V1_0 VR_MODE \<Longrightarrow> hint \<noteq> V1_0 SUSTAINED_PERFORMANCE \<Longrightarrow>
   hint \<noteq> CAMERA_STREAMING \<Longrightarrow>
   fst (powerHintAsync_1_2_switch buf hint data s) = s"
  by (cases hint) (simp_all add: powerHint_frame)

lemma camera_streaming_frame:
  "mVRModeOn (fst (powerHintAsync_1_2_switch buf CAMERA_STREAMING data s)) = mVRModeOn s
   \<and> mSustainedPerfModeOn (fst (powerHintAsync_1_2_switch buf CAMERA_STREAMING data s))
       = mSustainedPerfModeOn s"
  by simp

text \<open>
  Claim C10. For every payload, state, governor and entry point, a request whose hint is
  none of \<^verbatim>\<open>VR_MODE\<close>, \<^verbatim>\<open>SUSTAINED_PERFORMANCE\<close>, \<^verbatim>\<open>CAMERA_STREAMING\<close> leaves the three
  mode flags as they were, and a \<^verbatim>\<open>CAMERA_STREAMING\<close> request leaves \<^verbatim>\<open>mVRModeOn\<close> and
  \<^verbatim>\<open>mSustainedPerfModeOn\<close> as they were.
\<close>

theorem frame_of_mode_flags:
  "(hint_of r \<noteq> V1_2 (V1_0 VR_MODE) \<and> hint_of r \<noteq> V1_2 (V1_0 SUSTAINED_PERFORMANCE)
      \<and> hint_of r \<noteq> V1_2 CAMERA_STREAMING \<longrightarrow>
      mVRModeOn (fst (handle buf r s)) = mVRModeOn s
      \<and> mSustainedPerfModeOn (fst (handle buf r s)) = mSustainedPerfModeOn s
      \<and> mCameraStreamingModeOn (fst (handle buf r s)) = mCameraStreamingModeOn s)
   \<and> (hint_of r' = V1_2 CAMERA_STREAMING \<longrightarrow>
      mVRModeOn (fst (handle buf r' s)) = mVRModeOn s
      \<and> mSustainedPerfModeOn (fst (handle buf r' s)) = mSustainedPerfModeOn s)"
proof -
  have frame: "fst (handle buf r s) = s"
    if "hint_of r \<noteq> V1_2 (V1_0 VR_MODE)" "hint_of r \<noteq> V1_2 (V1_0 SUSTAINED_PERFORMANCE)"
       "hint_of r \<noteq> V1_2 CAMERA_STREAMING"
  proof (cases "mReady s \<and> fst (isSupportedGovernor buf)")
    case True
    with that show ?thesis
      by (cases "hint_of r") (auto simp: handle_open powerHintAsync_1_2_switch_frame)
  next
    case False
    then show ?thesis by (simp add: handle_closed)
  qed
  have camera: "mVRModeOn (fst (handle buf r' s)) = mVRModeOn s
      \<and> mSustainedPerfModeOn (fst (handle buf r' s)) = mSustainedPerfModeOn s"
    if "hint_of r' = V1_2 CAMERA_STREAMING"
  proof (cases "mReady s \<and> fst (isSupportedGovernor buf)")
    case True
    with that show ?thesis
      using camera_streaming_frame [of buf "data_of r'" s] by (simp add: handle_open)
  next
    case False
    then show ?thesis by (simp add: handle_closed)
  qed
  from frame camera show ?thesis by simp
qed

theorem frame_of_mode_flags_witness:
  "hint_of (Req_powerHintAsync_1_2 (V1_0 LAUNCH) 1) \<noteq> V1_2 (V1_0 VR_MODE)
   \<and> hint_of (Req_powerHintAsync_1_2 (V1_0 LAUNCH) 1) \<noteq> V1_2 (V1_0 SUSTAINED_PERFORMANCE)
   \<and> hint_of (Req_powerHintAsync_1_2 (V1_0 LAUNCH) 1) \<noteq> V1_2 CAMERA_STREAMING
   \<and> hint_of (Req_powerHintAsync_1_3 (V1_2 CAMERA_STREAMING) 1) = V1_2 CAMERA_STREAMING
   \<and> handle ''schedutil'' (Req_powerHintAsync_1_2 (V1_0 LAUNCH) 1) (Power_ctor\<lparr>mReady := True\<rparr>)
     = (Power_ctor\<lparr>mReady := True\<rparr>, [DoHint ''LAUNCH''])
   \<and> handle ''schedutil'' (Req_powerHintAsync_1_3 (V1_2 CAMERA_STREAMING) 1)
       (Power_ctor\<lparr>mReady := True\<rparr>)
     = (Power_ctor\<lparr>mCameraStreamingModeOn := True, mReady := True\<rparr>,
        [DoHint ''CAMERA_STREAMING''])"
  using frame_of_mode_flags [where r = "Req_powerHintAsync_1_2 (V1_0 LAUNCH) 1"
      and r' = "Req_powerHintAsync_1_3 (V1_2 CAMERA_STREAMING) 1"
      and buf = "''schedutil''" and s = "Power_ctor\<lparr>mReady := True\<rparr>"]
  by (simp add: isSupportedGovernor_def Power_ctor_def powerHint_def
      powerHintAsync_1_2_def powerHintAsync_1_3_def word_sless_alt)

subsection \<open>The plain hints are never active together\<close>

lemma active_from_append: "active_from A (xs @ ys) = active_from (active_from A xs) ys"
  by (simp add: active_from_def)

lemma never_both_plain_Nil: "never_both_plain A [] = (\<not> both_plain A)"
  by (simp add: never_both_plain_def active_from_def)

lemma never_both_plain_Cons:
  "never_both_plain A (e # es) = (\<not> both_plain A \<and> never_both_plain (apply_event A e) es)"
proof
  assume l: "never_both_plain A (e # es)"
  then have "\<not> both_plain (active_from A (take 0 (e # es)))"
    unfolding never_both_plain_def by blast
  then have a: "\<not> both_plain A" by (simp add: active_from_def)
  have "\<not> both_plain (active_from (apply_event A e) (take k es))" if "k \<le> length es" for k
  proof -
    from that have "Suc k \<le> length (e # es)" by simp
    with l have "\<not> both_plain (active_from A (take (Suc k) (e # es)))"
      unfolding never_both_plain_def by blast
    then show ?thesis by (simp add: active_from_def)
  qed
  with a show "\<not> both_plain A \<and> never_both_plain (apply_event A e) es"
    by (simp add: never_both_plain_def)
next
  assume r: "\<not> both_plain A \<and> never_both_plain (apply_event A e) es"
  show "never_both_plain A (e # es)"
    unfolding never_both_plain_def
  proof (intro allI impI)
    fix k assume k: "k \<le> length (e # es)"
    show "\<not> both_plain (active_from A (take k (e # es)))"
    proof (cases k)
      case 0
      with r show ?thesis by (simp add: active_from_def)
    next
      case (Suc j)
      with k have "j \<le> length es" by simp
      with r have "\<not> both_plain (active_from (apply_event A e) (take j es))"
        by (simp add: never_both_plain_def)
      with Suc show ?thesis by (simp add: active_from_def)
    qed
  qed
qed

lemma never_both_plain_append:
  "never_both_plain A (xs @ ys)
     = (never_both_plain A xs \<and> never_both_plain (active_from A xs) ys)"
proof (induction xs arbitrary: A)
  case Nil
  show ?case
    by (cases ys) (auto simp: never_both_plain_Nil never_both_plain_Cons active_from_def)
next
  case (Cons e xs)
  then show ?case
    by (auto simp: never_both_plain_Cons active_from_def)
qed

lemma powerHint_switch_mode_step:
  assumes "hint = VR_MODE \<or> hint = SUSTAINED_PERFORMANCE"
  shows "active_from (expected_hints s) (snd (powerHint_switch hint data s))
       = expected_hints (fst (powerHint_switch hint data s))
     \<and> never_both_plain (expected_hints s) (snd (powerHint_switch hint data s))"
  using assms
  by (elim disjE; cases "data = 0"; cases "mVRModeOn s"; cases "mSustainedPerfModeOn s";
      simp add: expected_hints_def active_from_def never_both_plain_Cons never_both_plain_Nil
        both_plain_def)

lemma log_step:
  "active_from A (snd (isSupportedGovernor buf)) = A
   \<and> never_both_plain A (snd (isSupportedGovernor buf)) = (\<not> both_plain A)"
  by (simp add: isSupportedGovernor_def active_from_def never_both_plain_Cons
      never_both_plain_Nil)

lemma not_both_plain_expected: "\<not> both_plain (expected_hints s)"
  by (simp add: both_plain_def expected_hints_def)

lemma handle_mode_step:
  assumes "is_mode_request r"
  shows "active_from (expected_hints s) (snd (handle buf r s))
       = expected_hints (fst (handle buf r s))
     \<and> never_both_plain (expected_hints s) (snd (handle buf r s))"
proof (cases "mReady s \<and> fst (isSupportedGovernor buf)")
  case True
  from assms obtain hint where h: "hint_of r = V1_2 (V1_0 hint)"
    and m: "hint = VR_MODE \<or> hint = SUSTAINED_PERFORMANCE"
    by (auto simp: is_mode_request_def)
  from True h have "handle buf r s = powerHint_switch hint (data_of r) s"
    by (simp add: handle_mode_open)
  with powerHint_switch_mode_step [OF m] show ?thesis by simp
next
  case False
  then have "handle buf r s = (s, snd (isSupportedGovernor buf))"
    by (simp add: handle_closed)
  then show ?thesis by (simp add: log_step not_both_plain_expected)
qed

lemma run_mode_steps:
  assumes "\<forall>(buf, r) \<in> set reqs. is_mode_request r"
  shows "active_from (expected_hints s) (snd (run reqs s)) = expected_hints (fst (run reqs s))
     \<and> never_both_plain (expected_hints s) (snd (run reqs s))"
  using assms
proof (induction reqs arbitrary: s)
  case Nil
  show ?case by (simp add: active_from_def never_both_plain_Nil not_both_plain_expected)
next
  case (Cons a reqs)
  obtain buf r where a: "a = (buf, r)" by (cases a)
  let ?s1 = "fst (handle buf r s)"
  from Cons.prems a have m: "is_mode_request r" by simp
  from Cons.prems have rest: "\<forall>(buf, r) \<in> set reqs. is_mode_request r" by simp
  note step = handle_mode_step [OF m, of s buf]
  note ih = Cons.IH [OF rest, of ?s1]
  have run: "run (a # reqs) s
      = (fst (run reqs ?s1), snd (handle buf r s) @ snd (run reqs ?s1))"
    using a by (simp add: case_prod_beta)
  show ?case
    using step ih unfolding run
    by (simp add: active_from_append never_both_plain_append)
qed

text \<open>
  Claim C2. Take any sequence of \<^verbatim>\<open>VR_MODE\<close> and \<^verbatim>\<open>SUSTAINED_PERFORMANCE\<close> requests
  (any payloads, entry points and governor readings), processed from a state in which both
  flags are false, and read the calls made as operations on the set of active hints,
  initially empty. After no prefix of the calls are the plain hints \<^verbatim>\<open>VR_MODE\<close> and
  \<^verbatim>\<open>SUSTAINED_PERFORMANCE\<close> both active; and if the sequence ends with both flags set,
  the composed hint \<^verbatim>\<open>VR_SUSTAINED_PERFORMANCE\<close> is the one active hint. Every prefix of
  such a sequence is such a sequence, so the second part holds after each request.
\<close>

theorem never_both_plain_hints:
  assumes "\<not> mVRModeOn s" and "\<not> mSustainedPerfModeOn s"
    and "\<forall>(buf, r) \<in> set reqs. is_mode_request r"
  shows "(\<forall>k \<le> length (snd (run reqs s)).
            \<not> (''VR_MODE'' \<in> active_hints (take k (snd (run reqs s)))
               \<and> ''SUSTAINED_PERFORMANCE'' \<in> active_hints (take k (snd (run reqs s)))))
    \<and> (mVRModeOn (fst (run reqs s)) \<and> mSustainedPerfModeOn (fst (run reqs s)) \<longrightarrow>
          active_hints (snd (run reqs s)) = {''VR_SUSTAINED_PERFORMANCE''})"
proof -
  from assms(1,2) have e: "expected_hints s = {}" by (simp add: expected_hints_def)
  from run_mode_steps [OF assms(3), of s] e
  have a: "active_hints (snd (run reqs s)) = expected_hints (fst (run reqs s))"
    and n: "never_both_plain {} (snd (run reqs s))"
    by (simp_all add: active_hints_def)
  from n have "\<forall>k \<le> length (snd (run reqs s)).
            \<not> (''VR_MODE'' \<in> active_hints (take k (snd (run reqs s)))
               \<and> ''SUSTAINED_PERFORMANCE'' \<in> active_hints (take k (snd (run reqs s))))"
    by (simp add: never_both_plain_def both_plain_def active_hints_def)
  moreover from a have "mVRModeOn (fst (run reqs s)) \<and> mSustainedPerfModeOn (fst (run reqs s)) \<longrightarrow>
          active_hints (snd (run reqs s)) = {''VR_SUSTAINED_PERFORMANCE''}"
    by (simp add: expected_hints_def)
  ultimately show ?thesis by blast
qed

theorem never_both_plain_hints_witness:
  "\<not> mVRModeOn (Power_ctor\<lparr>mReady := True\<rparr>)
   \<and> \<not> mSustainedPerfModeOn (Power_ctor\<lparr>mReady := True\<rparr>)
   \<and> is_mode_request (Req_powerHint VR_MODE 1)
   \<and> is_mode_request (Req_powerHintAsync_1_3 (V1_2 (V1_0 SUSTAINED_PERFORMANCE)) 1)
   \<and> mVRModeOn (fst (run [(''schedutil'', Req_powerHint VR_MODE 1),
          (''schedutil'', Req_powerHintAsync_1_3 (V1_2 (V1_0 SUSTAINED_PERFORMANCE)) 1)]
          (Power_ctor\<lparr>mReady := True\<rparr>)))
   \<and> mSustainedPerfModeOn (fst (run [(''schedutil'', Req_powerHint VR_MODE 1),
          (''schedutil'', Req_powerHintAsync_1_3 (V1_2 (V1_0 SUSTAINED_PERFORMANCE)) 1)]
          (Power_ctor\<lparr>mReady := True\<rparr>)))
   \<and> active_hints (snd (run [(''schedutil'', Req_powerHint VR_MODE 1),
          (''schedutil'', Req_powerHintAsync_1_3 (V1_2 (V1_0 SUSTAINED_PERFORMANCE)) 1)]
          (Power_ctor\<lparr>mReady := True\<rparr>))) = {''VR_SUSTAINED_PERFORMANCE''}"
  using never_both_plain_hints [where s = "Power_ctor\<lparr>mReady := True\<rparr>"
      and reqs = "[(''schedutil'', Req_powerHint VR_MODE 1),
          (''schedutil'', Req_powerHintAsync_1_3 (V1_2 (V1_0 SUSTAINED_PERFORMANCE)) 1)]"]
  by (simp add: is_mode_request_def Power_ctor_def powerHint_def powerHintAsync_1_2_def
      powerHintAsync_1_3_def isSupportedGovernor_def)

end
